theory Spec2Isabelle
  imports Complex_Main
begin

section \<open>Errors\<close>

text \<open>
  The script \<^verbatim>\<open>triangle_mg.py\<close> raises nothing of its own: every failure is an
  exception of the Python runtime or of the host. They are named here after the error
  taxonomy of the specification: \<open>AttributeNotFound\<close> is the \<^verbatim>\<open>AttributeError\<close> of an
  attribute path that does not resolve, \<open>IndexOutOfRange\<close> the \<^verbatim>\<open>IndexError\<close> of
  \<^verbatim>\<open>verts[i]\<close>, \<open>ResourceUnavailable\<close> the \<^verbatim>\<open>KeyError\<close> of a lookup by name in a host
  collection. \<open>LengthMismatch\<close> is part of the taxonomy; no statement of the script
  raises it.
\<close>

datatype error = LengthMismatch | AttributeNotFound | IndexOutOfRange | ResourceUnavailable


section \<open>Meshes\<close>

text \<open>
  A mesh is an ordered sequence of vertices, each with an identity and a position, and
  faces that are tuples of vertex identities. The mesh data-block also carries the
  material slots (\<^verbatim>\<open>cone.data.materials\<close>).
\<close>

record vertex =
  vindex :: nat
  co :: "real \<times> real \<times> real"

type_synonym face = "nat list"

record mesh =
  vertices :: "vertex list"
  polygons :: "face list"
  materials :: "string list"


section \<open>Scene objects and the animation store\<close>

text \<open>
  What the host does to an object is recorded in the object's \<open>history\<close>, a trace of the
  attribute assignments and keyframe insertions in the order the host performed them.
  A keyframe insertion records the value it captured.
\<close>

datatype 'v event = Assigned string 'v | Keyed string int 'v

type_synonym 'v fcurve = "(int \<times> 'v) list"

record 'v scene_object =
  attrs :: "string \<rightharpoonup> 'v"
  animation :: "string \<Rightarrow> 'v fcurve"
  data :: mesh
  history :: "'v event list"

text \<open>
  Modelled from the spec: the animation channel of the host, which is not part of the
  repository. A channel holds at most one value per time: inserting at a time that is
  already keyed replaces the value there, inserting at a new time adds a keyframe.
\<close>

fun keyframe_points_insert :: "int \<Rightarrow> 'v \<Rightarrow> 'v fcurve \<Rightarrow> 'v fcurve" where
  "keyframe_points_insert f v [] = [(f, v)]"
| "keyframe_points_insert f v ((g, w) # ks) =
     (if g = f then (f, v) # ks else (g, w) # keyframe_points_insert f v ks)"

definition keyed_frames :: "'v fcurve \<Rightarrow> int set" where
  "keyed_frames ks = fst ` set ks"

text \<open>
  Modelled from the spec: \<^verbatim>\<open>setattr(obj, attribute, v)\<close> on a host object. The host
  object has a fixed set of attributes; an attribute path that does not resolve raises
  and leaves the object as it was.
\<close>

definition py_setattr ::
  "'v scene_object \<Rightarrow> string \<Rightarrow> 'v \<Rightarrow> error option \<times> 'v scene_object" where
  "py_setattr obj attribute v =
     (case attrs obj attribute of
        None \<Rightarrow> (Some AttributeNotFound, obj)
      | Some old \<Rightarrow>
          (None, obj\<lparr>attrs := (attrs obj)(attribute \<mapsto> v),
                     history := history obj @ [Assigned attribute v]\<rparr>))"

text \<open>
  Modelled from the spec: \<^verbatim>\<open>obj.keyframe_insert(data_path, frame)\<close>, the keyframe
  insertion of the host. It reads the current value of the attribute and records it at
  the frame, on the channel of (object, data path).
\<close>

definition keyframe_insert ::
  "'v scene_object \<Rightarrow> string \<Rightarrow> int \<Rightarrow> error option \<times> 'v scene_object" where
  "keyframe_insert obj data_path frame =
     (case attrs obj data_path of
        None \<Rightarrow> (Some AttributeNotFound, obj)
      | Some cur \<Rightarrow>
          (None, obj\<lparr>animation := (animation obj)
                       (data_path := keyframe_points_insert frame cur (animation obj data_path)),
                     history := history obj @ [Keyed data_path frame cur]\<rparr>))"

text \<open>
  \<^verbatim>\<open>add_keyframe_sequence\<close>: the loop over \<^verbatim>\<open>zip(values, frames)\<close>. An exception ends
  the loop; the object keeps what was done to it before (it is mutated in place).
\<close>

fun keyframe_loop ::
  "'v scene_object \<Rightarrow> string \<Rightarrow> ('v \<times> int) list \<Rightarrow> error option \<times> 'v scene_object" where
  "keyframe_loop obj attribute [] = (None, obj)"
| "keyframe_loop obj attribute ((v, f) # rest) =
     (case py_setattr obj attribute v of
        (Some e, obj1) \<Rightarrow> (Some e, obj1)
      | (None, obj1) \<Rightarrow>
          (case keyframe_insert obj1 attribute f of
             (Some e, obj2) \<Rightarrow> (Some e, obj2)
           | (None, obj2) \<Rightarrow> keyframe_loop obj2 attribute rest))"

definition add_keyframe_sequence ::
  "'v scene_object \<Rightarrow> string \<Rightarrow> 'v list \<Rightarrow> int list \<Rightarrow> error option \<times> 'v scene_object" where
  "add_keyframe_sequence obj attribute values frames =
     keyframe_loop obj attribute (zip values frames)"

text \<open>The keyframe insertions of a trace, and the trace a run of pairs should leave.\<close>

fun is_keyed :: "'v event \<Rightarrow> bool" where
  "is_keyed (Keyed a f v) = True"
| "is_keyed (Assigned a v) = False"

definition insertions :: "'v event list \<Rightarrow> nat" where
  "insertions h = length (filter is_keyed h)"

fun pair_events :: "string \<Rightarrow> ('v \<times> int) list \<Rightarrow> 'v event list" where
  "pair_events a [] = []"
| "pair_events a ((v, f) # rest) = Assigned a v # Keyed a f v # pair_events a rest"


section \<open>The geometry editor\<close>

text \<open>
  The working copy of a mesh that \<^verbatim>\<open>bmesh.new()\<close> and \<^verbatim>\<open>bm.from_mesh(mesh)\<close> give: the
  vertices in their order and the faces. The list \<^verbatim>\<open>verts = [v for v in bm.verts]\<close> is
  the vertex sequence itself; a vertex object is named by its place in it.
\<close>

record bmesh =
  bm_verts :: "vertex list"
  bm_faces :: "face list"

text \<open>
  Modelled from the spec: \<^verbatim>\<open>bm.from_mesh(mesh)\<close> and \<^verbatim>\<open>bm.to_mesh(mesh)\<close> of the host, which
  are not part of the repository: obtaining the working copy of a mesh and committing it
  back. The commit writes the geometry; the material slots of the mesh are not touched.
\<close>

definition from_mesh :: "mesh \<Rightarrow> bmesh" where
  "from_mesh m = \<lparr>bm_verts = vertices m, bm_faces = polygons m\<rparr>"

definition to_mesh :: "bmesh \<Rightarrow> mesh \<Rightarrow> mesh" where
  "to_mesh bm m = m\<lparr>vertices := bm_verts bm, polygons := bm_faces bm\<rparr>"

text \<open>
  Modelled from the spec: \<^verbatim>\<open>bmesh.ops.delete(bm, geom, context='VERTS')\<close>, the vertex
  deletion of the host, which is not part of the repository. It removes each vertex
  of \<open>geom\<close> (given by its place in the vertex sequence) and every face incident to it;
  all other vertices and faces are kept unchanged, in their order. A surviving vertex
  keeps its identity, so a surviving face is the same tuple as before.
\<close>

definition bmesh_ops_delete :: "bmesh \<Rightarrow> nat list \<Rightarrow> bmesh" where
  "bmesh_ops_delete bm geom =
     (let dead = map (\<lambda>i. vindex (bm_verts bm ! i)) geom
      in \<lparr>bm_verts = map snd (filter (\<lambda>p. fst p \<notin> set geom) (enumerate 0 (bm_verts bm))),
          bm_faces = filter (\<lambda>f. \<not> list_ex (\<lambda>d. d \<in> set f) dead) (bm_faces bm)\<rparr>)"

text \<open>
  The statements \<^verbatim>\<open>bm = bmesh.new()\<close> to \<^verbatim>\<open>bm.free()\<close> of the script, for any list of
  vertex places instead of the literal \<^verbatim>\<open>[verts[3]]\<close>. \<^verbatim>\<open>verts[i]\<close> raises for a place
  beyond the end of the list, before anything is deleted or written back.
\<close>

definition derive_mesh :: "mesh \<Rightarrow> nat list \<Rightarrow> error + mesh" where
  "derive_mesh m S =
     (let bm = from_mesh m; verts = bm_verts bm
      in if list_all (\<lambda>i. i < length verts) S
         then Inr (to_mesh (bmesh_ops_delete bm S) m)
         else Inl IndexOutOfRange)"

definition incident :: "mesh \<Rightarrow> nat \<Rightarrow> face \<Rightarrow> bool" where
  "incident m i f = (vindex (vertices m ! i) \<in> set f)"

text \<open>
  The geometry edit on the mesh of an object, from \<^verbatim>\<open>mesh = bpy.context.object.data\<close> to
  \<^verbatim>\<open>bm.free()\<close>: the mesh is edited in place, so the object sees the result; an
  exception leaves the object as it was.
\<close>

definition edit_mesh_obj ::
  "'v scene_object \<Rightarrow> nat list \<Rightarrow> error option \<times> 'v scene_object" where
  "edit_mesh_obj obj S =
     (case derive_mesh (data obj) S of
        Inl e \<Rightarrow> (Some e, obj)
      | Inr m \<Rightarrow> (None, obj\<lparr>data := m\<rparr>))"











definition twice_empty :: "mesh \<Rightarrow> error + mesh" where
  "twice_empty m =
     (case derive_mesh m [] of Inl e \<Rightarrow> Inl e | Inr m1 \<Rightarrow> derive_mesh m1 [])"


section \<open>Object placement\<close>

text \<open>
  \<^verbatim>\<open>bpy.data.objects\<close> is a collection of objects by name. Python floats are taken as
  real numbers and \<^verbatim>\<open>math.pi\<close> as \<open>pi\<close>.
\<close>

type_synonym objects = "string \<rightharpoonup> real list scene_object"

definition degToRadian :: "real \<Rightarrow> real" where
  "degToRadian angle = angle * (pi / 180)"

definition rotate_obj :: "string \<Rightarrow> real list \<Rightarrow> objects \<Rightarrow> error option \<times> objects" where
  "rotate_obj name angles objs =
     (let rotation = map degToRadian angles
      in case objs name of
           None \<Rightarrow> (Some ResourceUnavailable, objs)
         | Some obj \<Rightarrow>
             (case py_setattr obj ''rotation_euler'' rotation of
                (Some e, obj1) \<Rightarrow> (Some e, objs)
              | (None, obj1) \<Rightarrow> (None, objs(name \<mapsto> obj1))))"


section \<open>Materials\<close>

record material =
  mat_name :: string
  use_nodes :: bool

text \<open>
  Modelled from the spec: the material store of the host (\<^verbatim>\<open>bpy.data.materials\<close>), which
  is not part of the repository. \<^verbatim>\<open>get\<close> returns the material of that name or \<^verbatim>\<open>None\<close>;
  \<^verbatim>\<open>new\<close> adds one material. How the host renames a new material whose name is taken
  is the parameter \<open>rename\<close>.
\<close>

definition materials_get :: "material list \<Rightarrow> string \<Rightarrow> material option" where
  "materials_get mats name = find (\<lambda>m. mat_name m = name) mats"

definition materials_new ::
  "(string \<Rightarrow> string list \<Rightarrow> string) \<Rightarrow> material list \<Rightarrow> string \<Rightarrow> material \<times> material list" where
  "materials_new rename mats name =
     (let taken = map mat_name mats;
          m = \<lparr>mat_name = (if name \<in> set taken then rename name taken else name),
               use_nodes = False\<rparr>
      in (m, mats @ [m]))"

text \<open>
  \<^verbatim>\<open>bpy.data.materials.get(mat_name) or bpy.data.materials.new(mat_name)\<close>: a material
  object is truthy and \<^verbatim>\<open>None\<close> is falsy, so \<^verbatim>\<open>new\<close> runs only when \<^verbatim>\<open>get\<close> found nothing.
\<close>

definition get_or_new_material ::
  "(string \<Rightarrow> string list \<Rightarrow> string) \<Rightarrow> material list \<Rightarrow> string \<Rightarrow> material \<times> material list" where
  "get_or_new_material rename mats name =
     (case materials_get mats name of
        Some m \<Rightarrow> (m, mats)
      | None \<Rightarrow> materials_new rename mats name)"

definition named :: "material list \<Rightarrow> string \<Rightarrow> nat" where
  "named mats name = length (filter (\<lambda>m. mat_name m = name) mats)"


section \<open>The scene of the script\<close>

text \<open>
  The cone of \<^verbatim>\<open>primitive_cone_add(vertices=3)\<close>, of radius 1 and depth 2: three base
  vertices, the apex, the base face and three side faces.
\<close>

definition pyramid :: mesh where
  "pyramid =
     \<lparr>vertices = [\<lparr>vindex = 0, co = (0, 1, -1)\<rparr>, \<lparr>vindex = 1, co = (sqrt 3 / 2, - 1 / 2, -1)\<rparr>,
                  \<lparr>vindex = 2, co = (- (sqrt 3 / 2), - 1 / 2, -1)\<rparr>, \<lparr>vindex = 3, co = (0, 0, 1)\<rparr>],
      polygons = [[0, 1, 2], [0, 1, 3], [1, 2, 3], [2, 0, 3]],
      materials = [''Material'']\<rparr>"

definition triangle :: mesh where
  "triangle =
     \<lparr>vertices = [\<lparr>vindex = 0, co = (0, 1, -1)\<rparr>, \<lparr>vindex = 1, co = (sqrt 3 / 2, - 1 / 2, -1)\<rparr>,
                  \<lparr>vindex = 2, co = (- (sqrt 3 / 2), - 1 / 2, -1)\<rparr>],
      polygons = [[0, 1, 2]],
      materials = [''Material'']\<rparr>"

definition cone :: "real list scene_object" where
  "cone =
     \<lparr>attrs = [''location'' \<mapsto> [0, 0, -0.25], ''rotation_euler'' \<mapsto> [pi / 2, pi, 0],
               ''scale'' \<mapsto> [0.75, 0.75, 0.75]],
      animation = (\<lambda>a. []),
      data = pyramid,
      history = []\<rparr>"

definition xray_triangle :: "real list scene_object" where
  "xray_triangle =
     \<lparr>attrs = [''location'' \<mapsto> [0, -0.05, -0.25], ''rotation_euler'' \<mapsto> [pi / 2, pi, 0],
               ''scale'' \<mapsto> [0.75, 0.75, 0.75]],
      animation = (\<lambda>a. []),
      data = triangle\<lparr>materials := [''X-ray'']\<rparr>,
      history = []\<rparr>"

definition scale_values :: "real list list" where
  "scale_values = [[0.75, 0.75, 0.75], [0.5, 0.5, 0.5], [0, 0, 0], [0.75, 0.75, 0.75]]"

definition scale_frames :: "int list" where
  "scale_frames = [10, 60, 100, 250]"

definition emission :: material where
  "emission = \<lparr>mat_name = ''Material'', use_nodes = True\<rparr>"

definition dot_one :: "string \<Rightarrow> string list \<Rightarrow> string" where
  "dot_one name taken = name @ ''.001''"


section \<open>The keyframe loop\<close>

lemma keyframe_step:
  "attrs obj a = Some old \<Longrightarrow>
   keyframe_loop obj a ((v, f) # rest) =
     keyframe_loop
       (obj\<lparr>attrs := (attrs obj)(a \<mapsto> v),
            animation := (animation obj)(a := keyframe_points_insert f v (animation obj a)),
            history := history obj @ [Assigned a v, Keyed a f v]\<rparr>) a rest"
  by (simp add: py_setattr_def keyframe_insert_def)

lemma keyframe_loop_unresolved:
  "attrs obj a = None \<Longrightarrow>
   keyframe_loop obj a ps = (if ps = [] then None else Some AttributeNotFound, obj)"
  by (cases ps) (auto simp: py_setattr_def)

lemma keyframe_loop_no_error:
  "attrs obj a \<noteq> None \<Longrightarrow> fst (keyframe_loop obj a ps) = None"
proof (induction ps arbitrary: obj)
  case Nil
  show ?case by simp
next
  case (Cons p ps)
  obtain v f where p: "p = (v, f)" by (cases p)
  from Cons.prems obtain old where old: "attrs obj a = Some old" by auto
  show ?case unfolding p keyframe_step [OF old]
    by (rule Cons.IH) simp
qed

lemma keyframe_loop_history:
  "attrs obj a \<noteq> None \<Longrightarrow>
   history (snd (keyframe_loop obj a ps)) = history obj @ pair_events a ps"
proof (induction ps arbitrary: obj)
  case Nil
  show ?case by simp
next
  case (Cons p ps)
  obtain v f where p: "p = (v, f)" by (cases p)
  from Cons.prems obtain old where old: "attrs obj a = Some old" by auto
  show ?case unfolding p keyframe_step [OF old]
    by (subst Cons.IH) simp_all
qed

lemma keyframe_loop_animation:
  "attrs obj a \<noteq> None \<Longrightarrow>
   animation (snd (keyframe_loop obj a ps)) =
     (animation obj)(a := fold (\<lambda>p. keyframe_points_insert (snd p) (fst p)) ps (animation obj a))"
proof (induction ps arbitrary: obj)
  case Nil
  show ?case by simp
next
  case (Cons p ps)
  obtain v f where p: "p = (v, f)" by (cases p)
  from Cons.prems obtain old where old: "attrs obj a = Some old" by auto
  show ?case unfolding p keyframe_step [OF old]
    by (subst Cons.IH) simp_all
qed

lemma keyframe_loop_attrs:
  "attrs obj a \<noteq> None \<Longrightarrow>
   attrs (snd (keyframe_loop obj a ps)) =
     (if ps = [] then attrs obj else (attrs obj)(a \<mapsto> fst (last ps)))"
proof (induction ps arbitrary: obj)
  case Nil
  show ?case by simp
next
  case (Cons p ps)
  obtain v f where p: "p = (v, f)" by (cases p)
  from Cons.prems obtain old where old: "attrs obj a = Some old" by auto
  show ?case unfolding p keyframe_step [OF old]
    by (subst Cons.IH) auto
qed

lemma keyframe_loop_data:
  "data (snd (keyframe_loop obj a ps)) = data obj"
proof (induction ps arbitrary: obj)
  case Nil
  show ?case by simp
next
  case (Cons p ps)
  obtain v f where p: "p = (v, f)" by (cases p)
  show ?case
  proof (cases "attrs obj a")
    case None
    then show ?thesis by (simp add: keyframe_loop_unresolved)
  next
    case (Some old)
    show ?thesis unfolding p keyframe_step [OF Some]
      by (subst Cons.IH) simp
  qed
qed

lemma insertions_append: "insertions (h @ k) = insertions h + insertions k"
  by (simp add: insertions_def)

lemma insertions_pair_events: "insertions (pair_events a ps) = length ps"
  by (induction a ps rule: pair_events.induct) (simp_all add: insertions_def)

lemma zip_take_min:
  "zip (take (min (length xs) (length ys)) xs) (take (min (length xs) (length ys)) ys) = zip xs ys"
proof (induction xs arbitrary: ys)
  case Nil
  show ?case by simp
next
  case (Cons x xs)
  show ?case by (cases ys) (simp_all add: Cons.IH)
qed

lemma map_of_insert:
  "map_of (keyframe_points_insert f v ks) = (map_of ks)(f \<mapsto> v)"
  by (induction f v ks rule: keyframe_points_insert.induct) (auto simp: fun_eq_iff)

lemma keyed_frames_insert:
  "keyed_frames (keyframe_points_insert f v ks) = insert f (keyed_frames ks)"
  by (induction f v ks rule: keyframe_points_insert.induct) (auto simp: keyed_frames_def)

lemma length_insert:
  "length (keyframe_points_insert f v ks) =
     (if f \<in> keyed_frames ks then length ks else Suc (length ks))"
  by (induction f v ks rule: keyframe_points_insert.induct) (auto simp: keyed_frames_def)

lemma distinct_insert:
  "distinct (map fst ks) \<Longrightarrow> distinct (map fst (keyframe_points_insert f v ks))"
proof (induction f v ks rule: keyframe_points_insert.induct)
  case (1 f v)
  show ?case by simp
next
  case (2 f v g w ks)
  have "fst ` set (keyframe_points_insert f v ks) = insert f (fst ` set ks)"
    using keyed_frames_insert [of f v ks] by (simp add: keyed_frames_def)
  with 2 show ?case by auto
qed

lemma keyed_frames_fold:
  "keyed_frames (fold (\<lambda>p. keyframe_points_insert (snd p) (fst p)) ps ks) =
     snd ` set ps \<union> keyed_frames ks"
  by (induction ps arbitrary: ks) (auto simp: keyed_frames_insert)

lemma length_fold:
  "length (fold (\<lambda>p. keyframe_points_insert (snd p) (fst p)) ps ks) =
     length ks + card (snd ` set ps - keyed_frames ks)"
proof (induction ps arbitrary: ks)
  case Nil
  show ?case by simp
next
  case (Cons p ps)
  let ?ks = "keyframe_points_insert (snd p) (fst p) ks"
  have fin: "finite (snd ` set ps - keyed_frames ks)" by simp
  show ?case
  proof (cases "snd p \<in> keyed_frames ks")
    case True
    then have "snd ` set (p # ps) - keyed_frames ks = snd ` set ps - keyed_frames ?ks"
      by (auto simp: keyed_frames_insert)
    with True show ?thesis by (simp add: Cons.IH length_insert)
  next
    case False
    then have eq: "snd ` set (p # ps) - keyed_frames ks =
        insert (snd p) (snd ` set ps - keyed_frames ?ks)"
      by (auto simp: keyed_frames_insert)
    have "snd p \<notin> snd ` set ps - keyed_frames ?ks"
      by (simp add: keyed_frames_insert)
    then have "card (snd ` set (p # ps) - keyed_frames ks) =
        Suc (card (snd ` set ps - keyed_frames ?ks))"
      unfolding eq by (subst card_insert_disjoint) simp_all
    with False show ?thesis by (simp add: Cons.IH length_insert)
  qed
qed

lemma map_of_fold_untouched:
  "t \<notin> snd ` set ps \<Longrightarrow>
   map_of (fold (\<lambda>p. keyframe_points_insert (snd p) (fst p)) ps ks) t = map_of ks t"
  by (induction ps arbitrary: ks) (auto simp: map_of_insert)

lemma map_of_fold_last:
  "i < length ps \<Longrightarrow> \<forall>j. i < j \<and> j < length ps \<longrightarrow> snd (ps ! j) \<noteq> snd (ps ! i) \<Longrightarrow>
   map_of (fold (\<lambda>p. keyframe_points_insert (snd p) (fst p)) ps ks) (snd (ps ! i)) =
     Some (fst (ps ! i))"
proof (induction ps arbitrary: ks i)
  case Nil
  then show ?case by simp
next
  case (Cons p ps)
  show ?case
  proof (cases i)
    case 0
    have "snd p \<notin> snd ` set ps"
    proof
      assume "snd p \<in> snd ` set ps"
      then obtain k where k: "k < length ps" "snd (ps ! k) = snd p"
        by (auto simp: in_set_conv_nth)
      with Cons.prems(2) [rule_format, of "Suc k"] 0 show False by simp
    qed
    with 0 show ?thesis by (simp add: map_of_fold_untouched map_of_insert)
  next
    case (Suc k)
    have "\<forall>j. k < j \<and> j < length ps \<longrightarrow> snd (ps ! j) \<noteq> snd (ps ! k)"
    proof (intro allI impI)
      fix j assume "k < j \<and> j < length ps"
      with Cons.prems(2) [rule_format, of "Suc j"] Suc show "snd (ps ! j) \<noteq> snd (ps ! k)"
        by simp
    qed
    with Cons.IH [of k] Cons.prems(1) Suc show ?thesis by simp
  qed
qed

lemma sequence_no_error:
  "attrs obj a \<noteq> None \<Longrightarrow> fst (add_keyframe_sequence obj a vs fs) = None"
  unfolding add_keyframe_sequence_def by (rule keyframe_loop_no_error)

lemma sequence_history:
  "attrs obj a \<noteq> None \<Longrightarrow>
   history (snd (add_keyframe_sequence obj a vs fs)) = history obj @ pair_events a (zip vs fs)"
  unfolding add_keyframe_sequence_def by (rule keyframe_loop_history)

lemma sequence_animation:
  "attrs obj a \<noteq> None \<Longrightarrow>
   animation (snd (add_keyframe_sequence obj a vs fs)) =
     (animation obj)
       (a := fold (\<lambda>p. keyframe_points_insert (snd p) (fst p)) (zip vs fs) (animation obj a))"
  unfolding add_keyframe_sequence_def by (rule keyframe_loop_animation)

lemma sequence_attrs:
  "attrs obj a \<noteq> None \<Longrightarrow>
   attrs (snd (add_keyframe_sequence obj a vs fs)) =
     (if zip vs fs = [] then attrs obj else (attrs obj)(a \<mapsto> fst (last (zip vs fs))))"
  unfolding add_keyframe_sequence_def by (rule keyframe_loop_attrs)

lemma sequence_unresolved:
  "attrs obj a = None \<Longrightarrow>
   add_keyframe_sequence obj a vs fs =
     (if zip vs fs = [] then None else Some AttributeNotFound, obj)"
  unfolding add_keyframe_sequence_def by (rule keyframe_loop_unresolved)

lemma xray_scale: "attrs xray_triangle ''scale'' = Some [0.75, 0.75, 0.75]"
  by (simp add: xray_triangle_def)

lemma xray_scale_resolves: "attrs xray_triangle ''scale'' \<noteq> None"
  by (simp add: xray_triangle_def)

lemma xray_colour: "attrs xray_triangle ''colour'' = None"
  by (simp add: xray_triangle_def)

lemma xray_history: "history xray_triangle = []"
  by (simp add: xray_triangle_def)

lemma xray_animation: "animation xray_triangle a = []"
  by (simp add: xray_triangle_def)


section \<open>The keyframe sequencer\<close>

text \<open>
  Claim C1, as amended. The sequencer has no length check: \<^verbatim>\<open>zip\<close> stops at the shorter
  of the two sequences. So with \<open>length vs \<noteq> length fs\<close> the call does what it does on
  the first \<open>min (length vs) (length fs)\<close> pairs, never fails with \<open>LengthMismatch\<close>, and,
  when the attribute resolves, returns without an error after exactly
  \<open>min (length vs) (length fs)\<close> keyframe insertions.
\<close>

theorem zip_truncation:
  "add_keyframe_sequence obj a vs fs =
     add_keyframe_sequence obj a (take (min (length vs) (length fs)) vs)
       (take (min (length vs) (length fs)) fs)
   \<and> fst (add_keyframe_sequence obj a vs fs) \<noteq> Some LengthMismatch
   \<and> (attrs obj a \<noteq> None \<longrightarrow>
        fst (add_keyframe_sequence obj a vs fs) = None
        \<and> insertions (history (snd (add_keyframe_sequence obj a vs fs))) =
            insertions (history obj) + min (length vs) (length fs))"
proof (intro conjI impI)
  show "add_keyframe_sequence obj a vs fs =
     add_keyframe_sequence obj a (take (min (length vs) (length fs)) vs)
       (take (min (length vs) (length fs)) fs)"
    by (simp only: add_keyframe_sequence_def zip_take_min)
next
  show "fst (add_keyframe_sequence obj a vs fs) \<noteq> Some LengthMismatch"
  proof (cases "attrs obj a")
    case None
    then show ?thesis
      by (simp add: sequence_unresolved)
  next
    case (Some old)
    then show ?thesis
      by (simp add: sequence_no_error)
  qed
next
  assume "attrs obj a \<noteq> None"
  then show "fst (add_keyframe_sequence obj a vs fs) = None"
    by (rule sequence_no_error)
next
  assume "attrs obj a \<noteq> None"
  then show "insertions (history (snd (add_keyframe_sequence obj a vs fs))) =
            insertions (history obj) + min (length vs) (length fs)"
    by (simp add: sequence_history insertions_append insertions_pair_events)
qed


theorem zip_truncation_witness:
  "attrs xray_triangle ''scale'' \<noteq> None
   \<and> fst (add_keyframe_sequence xray_triangle ''scale'' (take 3 scale_values) scale_frames) = None
   \<and> insertions (history (snd (add_keyframe_sequence xray_triangle ''scale''
        (take 3 scale_values) scale_frames))) = 3"
proof -
  note trunc = zip_truncation [of xray_triangle "''scale''" "take 3 scale_values" scale_frames]
  from trunc xray_scale_resolves
  have "fst (add_keyframe_sequence xray_triangle ''scale'' (take 3 scale_values) scale_frames) = None
    \<and> insertions (history (snd (add_keyframe_sequence xray_triangle ''scale''
        (take 3 scale_values) scale_frames))) =
      insertions (history xray_triangle) + min (length (take 3 scale_values)) (length scale_frames)"
    by blast
  moreover have "insertions (history xray_triangle)
      + min (length (take 3 scale_values)) (length scale_frames) = 3"
    by (simp add: xray_history insertions_def scale_values_def scale_frames_def)
  ultimately show ?thesis using xray_scale_resolves by simp
qed

theorem mismatch_counterexample:
  "length (take 3 scale_values) \<noteq> length scale_frames
   \<and> fst (add_keyframe_sequence xray_triangle ''scale'' (take 3 scale_values) scale_frames)
       \<noteq> Some LengthMismatch
   \<and> insertions (history (snd (add_keyframe_sequence xray_triangle ''scale''
        (take 3 scale_values) scale_frames))) = insertions (history xray_triangle) + 3"
  by (simp add: sequence_no_error sequence_history xray_scale_resolves xray_history
      insertions_def scale_values_def scale_frames_def)

text \<open>
  Claim C2, as amended. For sequences of equal length and an attribute that resolves,
  the call returns without an error; for every \<open>i\<close> whose time does not occur again later
  in the sequence, the value recorded at \<open>fs ! i\<close> is \<open>vs ! i\<close> (so a later pair wins over
  an earlier one at the same time); the keyframe count of the channel grows by the number
  of distinct input times that were not keyed before; and the keyframes at times that
  are not in the input are unaltered.
\<close>

theorem sequence_channel:
  assumes len: "length vs = length fs" and res: "attrs obj a \<noteq> None"
  shows "fst (add_keyframe_sequence obj a vs fs) = None
   \<and> (\<forall>i < length fs. (\<forall>j. i < j \<and> j < length fs \<longrightarrow> fs ! j \<noteq> fs ! i) \<longrightarrow>
        map_of (animation (snd (add_keyframe_sequence obj a vs fs)) a) (fs ! i) = Some (vs ! i))
   \<and> length (animation (snd (add_keyframe_sequence obj a vs fs)) a) =
        length (animation obj a) + card (set fs - keyed_frames (animation obj a))
   \<and> (\<forall>t. t \<notin> set fs \<longrightarrow>
        map_of (animation (snd (add_keyframe_sequence obj a vs fs)) a) t =
        map_of (animation obj a) t)"
proof -
  let ?ps = "zip vs fs"
  have snd_ps: "snd ` set ?ps = set fs"
    using len by (metis map_snd_zip set_map order_refl)
  have lp: "length ?ps = length fs" using len by simp
  have anim: "animation (snd (add_keyframe_sequence obj a vs fs)) a =
      fold (\<lambda>p. keyframe_points_insert (snd p) (fst p)) ?ps (animation obj a)"
    using res by (simp add: sequence_animation)
  have c1: "fst (add_keyframe_sequence obj a vs fs) = None"
    using res by (rule sequence_no_error)
  have c2: "\<forall>i < length fs. (\<forall>j. i < j \<and> j < length fs \<longrightarrow> fs ! j \<noteq> fs ! i) \<longrightarrow>
        map_of (animation (snd (add_keyframe_sequence obj a vs fs)) a) (fs ! i) = Some (vs ! i)"
  proof (intro allI impI)
    fix i assume i: "i < length fs" and last: "\<forall>j. i < j \<and> j < length fs \<longrightarrow> fs ! j \<noteq> fs ! i"
    have i': "i < length ?ps" using i lp by simp
    have "\<forall>j. i < j \<and> j < length ?ps \<longrightarrow> snd (?ps ! j) \<noteq> snd (?ps ! i)"
      using last i len by simp
    from map_of_fold_last [OF i' this, of "animation obj a"]
    show "map_of (animation (snd (add_keyframe_sequence obj a vs fs)) a) (fs ! i) = Some (vs ! i)"
      using i len by (simp add: anim)
  qed
  have c3: "length (animation (snd (add_keyframe_sequence obj a vs fs)) a) =
        length (animation obj a) + card (set fs - keyed_frames (animation obj a))"
    by (simp add: anim length_fold snd_ps)
  have c4: "\<forall>t. t \<notin> set fs \<longrightarrow>
        map_of (animation (snd (add_keyframe_sequence obj a vs fs)) a) t =
        map_of (animation obj a) t"
    by (simp add: anim map_of_fold_untouched snd_ps)
  from c1 c2 c3 c4 show ?thesis by blast
qed

theorem sequence_channel_witness:
  "length scale_values = length scale_frames \<and> attrs xray_triangle ''scale'' \<noteq> None
   \<and> fst (add_keyframe_sequence xray_triangle ''scale'' scale_values scale_frames) = None
   \<and> map_of (animation (snd (add_keyframe_sequence xray_triangle ''scale'' scale_values
        scale_frames)) ''scale'') 60 = Some [0.5, 0.5, 0.5]
   \<and> length (animation (snd (add_keyframe_sequence xray_triangle ''scale'' scale_values
        scale_frames)) ''scale'') = 4
   \<and> map_of (animation (snd (add_keyframe_sequence xray_triangle ''scale'' scale_values
        scale_frames)) ''scale'') 20 = None"
proof -
  have len: "length scale_values = length scale_frames"
    by (simp add: scale_values_def scale_frames_def)
  have res: "attrs xray_triangle ''scale'' \<noteq> None"
    by (simp add: xray_scale)
  note chan = sequence_channel [OF len res]
  have a: "fst (add_keyframe_sequence xray_triangle ''scale'' scale_values scale_frames) = None"
    using chan by blast
  have "(1::nat) < length scale_frames
      \<and> (\<forall>j. 1 < j \<and> j < length scale_frames \<longrightarrow> scale_frames ! j \<noteq> scale_frames ! 1)"
    by (auto simp: scale_frames_def nth_Cons split: nat.splits)
  with chan have "map_of (animation (snd (add_keyframe_sequence xray_triangle ''scale''
      scale_values scale_frames)) ''scale'') (scale_frames ! 1) = Some (scale_values ! 1)"
    by blast
  then have b: "map_of (animation (snd (add_keyframe_sequence xray_triangle ''scale''
      scale_values scale_frames)) ''scale'') 60 = Some [0.5, 0.5, 0.5]"
    by (simp add: scale_frames_def scale_values_def)
  have "length (animation (snd (add_keyframe_sequence xray_triangle ''scale'' scale_values
        scale_frames)) ''scale'') = length (animation xray_triangle ''scale'')
          + card (set scale_frames - keyed_frames (animation xray_triangle ''scale''))"
    using chan by blast
  then have c: "length (animation (snd (add_keyframe_sequence xray_triangle ''scale''
      scale_values scale_frames)) ''scale'') = 4"
    by (simp add: xray_animation keyed_frames_def scale_frames_def)
  have "(20::int) \<notin> set scale_frames" by (simp add: scale_frames_def)
  with chan have "map_of (animation (snd (add_keyframe_sequence xray_triangle ''scale''
      scale_values scale_frames)) ''scale'') 20 = map_of (animation xray_triangle ''scale'') 20"
    by blast
  then have d: "map_of (animation (snd (add_keyframe_sequence xray_triangle ''scale''
      scale_values scale_frames)) ''scale'') 20 = None"
    by (simp add: xray_animation)
  from len res a b c d show ?thesis by blast
qed

theorem repeated_time_counterexample:
  "map_of (animation (snd (add_keyframe_sequence xray_triangle ''scale''
       [[1, 1, 1], [2, 2, 2]] [5, 5])) ''scale'') 5 \<noteq> Some [1, 1, 1]
   \<and> length (animation (snd (add_keyframe_sequence xray_triangle ''scale''
       [[1, 1, 1], [2, 2, 2]] [5, 5])) ''scale'')
     = length (animation xray_triangle ''scale'') + 1"
  by (simp add: sequence_animation xray_scale_resolves xray_animation)

lemma sequence_data: "data (snd (add_keyframe_sequence obj a vs fs)) = data obj"
  unfolding add_keyframe_sequence_def by (rule keyframe_loop_data)

text \<open>
  Claim C3. For an attribute that resolves, each pair is processed in index order by first
  assigning \<open>v\<close> to the attribute and then recording the keyframe at \<open>f\<close>, which captures
  the value just assigned: a call on \<open>v # vs\<close> and \<open>f # fs\<close> is the call on \<open>vs\<close> and \<open>fs\<close>
  from the object whose attribute is \<open>v\<close> and whose channel holds \<open>v\<close> at \<open>f\<close>. So the
  call returns without an error, the trace of the object grows by the assignment and
  the insertion of each pair in turn, the channel is the old one with every \<open>vs ! i\<close>
  inserted at \<open>fs ! i\<close> in index order, the attribute ends as the last value assigned,
  and the mesh is not touched.
\<close>

theorem assign_then_record:
  assumes res: "attrs obj a \<noteq> None"
  shows "add_keyframe_sequence obj a (v # vs) (f # fs) =
       add_keyframe_sequence
         (obj\<lparr>attrs := (attrs obj)(a \<mapsto> v),
              animation := (animation obj)(a := keyframe_points_insert f v (animation obj a)),
              history := history obj @ [Assigned a v, Keyed a f v]\<rparr>) a vs fs
   \<and> fst (add_keyframe_sequence obj a vs fs) = None
   \<and> history (snd (add_keyframe_sequence obj a vs fs)) =
       history obj @ pair_events a (zip vs fs)
   \<and> animation (snd (add_keyframe_sequence obj a vs fs)) =
       (animation obj)
         (a := fold (\<lambda>p. keyframe_points_insert (snd p) (fst p)) (zip vs fs)
                 (animation obj a))
   \<and> attrs (snd (add_keyframe_sequence obj a vs fs)) =
       (if zip vs fs = [] then attrs obj else (attrs obj)(a \<mapsto> fst (last (zip vs fs))))
   \<and> data (snd (add_keyframe_sequence obj a vs fs)) = data obj"
proof -
  from res obtain old where old: "attrs obj a = Some old" by auto
  have step: "add_keyframe_sequence obj a (v # vs) (f # fs) =
       add_keyframe_sequence
         (obj\<lparr>attrs := (attrs obj)(a \<mapsto> v),
              animation := (animation obj)(a := keyframe_points_insert f v (animation obj a)),
              history := history obj @ [Assigned a v, Keyed a f v]\<rparr>) a vs fs"
    unfolding add_keyframe_sequence_def zip_Cons_Cons by (rule keyframe_step [OF old])
  from step sequence_no_error [OF res] sequence_history [OF res] sequence_animation [OF res]
    sequence_attrs [OF res] sequence_data
  show ?thesis by blast
qed

theorem assign_then_record_witness:
  "attrs xray_triangle ''scale'' \<noteq> None
   \<and> history (snd (add_keyframe_sequence xray_triangle ''scale''
        [[1, 1, 1], [2, 2, 2]] [5, 9])) =
      [Assigned ''scale'' [1, 1, 1], Keyed ''scale'' 5 [1, 1, 1],
       Assigned ''scale'' [2, 2, 2], Keyed ''scale'' 9 [2, 2, 2]]
   \<and> animation (snd (add_keyframe_sequence xray_triangle ''scale''
        [[1, 1, 1], [2, 2, 2]] [5, 9])) ''scale'' = [(5, [1, 1, 1]), (9, [2, 2, 2])]
   \<and> attrs (snd (add_keyframe_sequence xray_triangle ''scale''
        [[1, 1, 1], [2, 2, 2]] [5, 9])) ''scale'' = Some [2, 2, 2]"
proof -
  note run = assign_then_record [OF xray_scale_resolves,
      where vs = "[[1, 1, 1], [2, 2, 2]]" and fs = "[5, 9]" and v = "[]" and f = 0]
  from run have h: "history (snd (add_keyframe_sequence xray_triangle ''scale''
        [[1, 1, 1], [2, 2, 2]] [5, 9])) =
      history xray_triangle @ pair_events ''scale'' (zip [[1, 1, 1], [2, 2, 2]] [5, 9])"
    by blast
  from run have an: "animation (snd (add_keyframe_sequence xray_triangle ''scale''
        [[1, 1, 1], [2, 2, 2]] [5, 9])) =
      (animation xray_triangle)
        (''scale'' := fold (\<lambda>p. keyframe_points_insert (snd p) (fst p))
            (zip [[1, 1, 1], [2, 2, 2]] [5, 9]) (animation xray_triangle ''scale''))"
    by blast
  from run have at: "attrs (snd (add_keyframe_sequence xray_triangle ''scale''
        [[1, 1, 1], [2, 2, 2]] [5, 9])) =
      (if zip [[1, 1, 1], [2, 2, 2 :: real]] [5, 9 :: int] = [] then attrs xray_triangle
       else (attrs xray_triangle)
         (''scale'' \<mapsto> fst (last (zip [[1, 1, 1], [2, 2, 2]] [5, 9 :: int]))))"
    by blast
  show ?thesis
    unfolding h an at by (simp add: xray_scale_resolves xray_history xray_animation)
qed

text \<open>
  Claim C6. The scale sequence of the script, on an object with a scale attribute: the
  call returns without an error; the host performed exactly four keyframe insertions, at
  frames 10, 60, 100 and 250 with the literal scale vectors, so a scale channel that had
  no keyframe holds exactly those four; and the live scale of the object is the last
  value applied.
\<close>

theorem scale_sequence:
  assumes res: "attrs obj ''scale'' \<noteq> None"
  shows "fst (add_keyframe_sequence obj ''scale'' scale_values scale_frames) = None
   \<and> (animation obj ''scale'' = [] \<longrightarrow>
       animation (snd (add_keyframe_sequence obj ''scale'' scale_values scale_frames)) ''scale'' =
         [(10, [0.75, 0.75, 0.75]), (60, [0.5, 0.5, 0.5]), (100, [0, 0, 0]),
          (250, [0.75, 0.75, 0.75])])
   \<and> attrs (snd (add_keyframe_sequence obj ''scale'' scale_values scale_frames)) ''scale'' =
       Some [0.75, 0.75, 0.75]
   \<and> filter is_keyed (drop (length (history obj))
        (history (snd (add_keyframe_sequence obj ''scale'' scale_values scale_frames)))) =
       [Keyed ''scale'' 10 [0.75, 0.75, 0.75], Keyed ''scale'' 60 [0.5, 0.5, 0.5],
        Keyed ''scale'' 100 [0, 0, 0], Keyed ''scale'' 250 [0.75, 0.75, 0.75]]"
proof (intro conjI impI)
  show "fst (add_keyframe_sequence obj ''scale'' scale_values scale_frames) = None"
    using res by (rule sequence_no_error)
next
  assume fresh: "animation obj ''scale'' = []"
  show "animation (snd (add_keyframe_sequence obj ''scale'' scale_values scale_frames)) ''scale'' =
       [(10, [0.75, 0.75, 0.75]), (60, [0.5, 0.5, 0.5]), (100, [0, 0, 0]),
        (250, [0.75, 0.75, 0.75])]"
    using res fresh
    by (simp add: sequence_animation scale_values_def scale_frames_def)
next
  show "attrs (snd (add_keyframe_sequence obj ''scale'' scale_values scale_frames)) ''scale'' =
       Some [0.75, 0.75, 0.75]"
    using res
    by (simp add: sequence_attrs scale_values_def scale_frames_def)
next
  show "filter is_keyed (drop (length (history obj))
        (history (snd (add_keyframe_sequence obj ''scale'' scale_values scale_frames)))) =
       [Keyed ''scale'' 10 [0.75, 0.75, 0.75], Keyed ''scale'' 60 [0.5, 0.5, 0.5],
        Keyed ''scale'' 100 [0, 0, 0], Keyed ''scale'' 250 [0.75, 0.75, 0.75]]"
    using res
    by (simp add: sequence_history scale_values_def scale_frames_def)
qed

theorem scale_sequence_witness:
  "attrs xray_triangle ''scale'' \<noteq> None \<and> animation xray_triangle ''scale'' = []
   \<and> length (animation (snd (add_keyframe_sequence xray_triangle ''scale'' scale_values
        scale_frames)) ''scale'') = 4
   \<and> attrs (snd (add_keyframe_sequence xray_triangle ''scale'' scale_values scale_frames))
        ''scale'' = Some (last scale_values)"
proof -
  have res: "attrs xray_triangle ''scale'' \<noteq> None" by (simp add: xray_scale)
  have fresh: "animation xray_triangle ''scale'' = []" by (simp add: xray_animation)
  from scale_sequence [OF res] res fresh show ?thesis
    by (simp add: scale_values_def)
qed

text \<open>
  Claim C7, as amended. For an attribute path that does not resolve on the object, the
  sequencer fails with \<open>AttributeNotFound\<close> at its first assignment, leaving the object
  as it was, whenever both sequences are non-empty; when one of them is empty the loop
  body never runs and the call returns without an error.
\<close>

theorem unresolved_attribute:
  "attrs obj a = None \<Longrightarrow>
   add_keyframe_sequence obj a vs fs =
     (if vs = [] \<or> fs = [] then None else Some AttributeNotFound, obj)"
  by (cases vs; cases fs) (simp_all add: sequence_unresolved)

theorem unresolved_attribute_witness:
  "attrs xray_triangle ''colour'' = None
   \<and> add_keyframe_sequence xray_triangle ''colour'' [[1, 1, 1]] [5] =
       (Some AttributeNotFound, xray_triangle)
   \<and> add_keyframe_sequence xray_triangle ''colour'' [] [] = (None, xray_triangle)"
proof -
  note un = xray_colour
  from unresolved_attribute [OF un, of "[[1, 1, 1]]" "[5]"]
    unresolved_attribute [OF un, of "[]" "[]"] un
  show ?thesis by simp
qed

theorem empty_sequence_counterexample:
  "attrs xray_triangle ''colour'' = None
   \<and> fst (add_keyframe_sequence xray_triangle ''colour'' [] []) \<noteq> Some AttributeNotFound"
  by (simp add: sequence_unresolved xray_colour)

section \<open>The geometry editor, the placement and the material store\<close>

lemma length_kept:
  assumes "set S \<subseteq> {..<length xs}"
  shows "length (filter (\<lambda>p. fst p \<notin> set S) (enumerate 0 xs)) = length xs - card (set S)"
proof -
  have "length (filter (\<lambda>p. fst p \<notin> set S) (enumerate 0 xs)) =
      card {i. i < length xs \<and> i \<notin> set S}"
    by (simp add: length_filter_conv_card nth_enumerate_eq cong: conj_cong)
  also have "{i. i < length xs \<and> i \<notin> set S} = {..<length xs} - set S"
    by auto
  also have "card ({..<length xs} - set S) = card {..<length xs} - card (set S)"
    using assms by (simp add: card_Diff_subset)
  finally show ?thesis by simp
qed

lemma derive_mesh_in_range:
  "list_all (\<lambda>i. i < length (vertices m)) S \<Longrightarrow>
   derive_mesh m S =
     Inr (m\<lparr>vertices := map snd (filter (\<lambda>p. fst p \<notin> set S) (enumerate 0 (vertices m))),
            polygons := filter (\<lambda>f. \<not> list_ex (\<lambda>i. incident m i f) S) (polygons m)\<rparr>)"
  by (simp add: derive_mesh_def from_mesh_def to_mesh_def bmesh_ops_delete_def Let_def
      incident_def list_ex_iff)

lemma derive_mesh_out_of_range:
  "\<not> list_all (\<lambda>i. i < length (vertices m)) S \<Longrightarrow> derive_mesh m S = Inl IndexOutOfRange"
  by (simp add: derive_mesh_def from_mesh_def Let_def)

lemma derive_mesh_empty: "derive_mesh m [] = Inr m"
  by (simp add: derive_mesh_def from_mesh_def to_mesh_def bmesh_ops_delete_def Let_def
      enumerate_eq_zip)


text \<open>
  Claim C4. For every mesh and every list \<open>S\<close> of vertex places in range, the derived mesh
  has the faces of the original minus every face incident to a vertex named in \<open>S\<close>, and
  \<open>card (set S)\<close> vertices fewer. In particular the pyramid of four vertices and four
  faces, with vertex 3 removed, has three vertices and one face.
\<close>

theorem derive_mesh_faces_and_count:
  "(list_all (\<lambda>i. i < length (vertices m)) S \<longrightarrow>
      (\<exists>m1. derive_mesh m S = Inr m1
         \<and> set (polygons m1) =
             set (polygons m) - {f. \<exists>i \<in> set S. incident m i f}
         \<and> length (vertices m1) = length (vertices m) - card (set S)))
   \<and> (\<exists>m1. derive_mesh pyramid [3] = Inr m1
         \<and> length (vertices m1) = 3 \<and> length (polygons m1) = 1)"
proof (intro conjI impI)
  assume inr: "list_all (\<lambda>i. i < length (vertices m)) S"
  then have sub: "set S \<subseteq> {..<length (vertices m)}"
    by (auto simp: list_all_iff)
  show "\<exists>m1. derive_mesh m S = Inr m1
         \<and> set (polygons m1) = set (polygons m) - {f. \<exists>i \<in> set S. incident m i f}
         \<and> length (vertices m1) = length (vertices m) - card (set S)"
    unfolding derive_mesh_in_range [OF inr]
    by (auto simp: length_kept [OF sub] list_ex_iff)
next
  have "list_all (\<lambda>i. i < length (vertices pyramid)) [3]"
    by (simp add: pyramid_def)
  from derive_mesh_in_range [OF this]
  show "\<exists>m1. derive_mesh pyramid [3] = Inr m1
         \<and> length (vertices m1) = 3 \<and> length (polygons m1) = 1"
    by (simp add: pyramid_def incident_def enumerate_eq_zip upt_rec)
qed

theorem derive_mesh_faces_and_count_witness:
  "list_all (\<lambda>i. i < length (vertices pyramid)) [3]
   \<and> derive_mesh pyramid [3] = Inr triangle
   \<and> set (polygons triangle) = set (polygons pyramid) - {f. \<exists>i \<in> set [3]. incident pyramid i f}
   \<and> length (vertices triangle) = length (vertices pyramid) - card (set [3::nat])"
proof -
  have inr: "list_all (\<lambda>i. i < length (vertices pyramid)) [3]"
    by (simp add: pyramid_def)
  have tri: "derive_mesh pyramid [3] = Inr triangle"
    unfolding derive_mesh_in_range [OF inr]
    by (simp add: pyramid_def triangle_def incident_def enumerate_eq_zip upt_rec)
  from derive_mesh_faces_and_count [of pyramid "[3]"] inr tri show ?thesis
    by auto
qed

text \<open>
  Claim C8. Deriving with the empty removal set changes nothing, once or twice over:
  every vertex and face is kept, in its order.
\<close>

theorem empty_removal_noop:
  "derive_mesh m [] = Inr m \<and> twice_empty m = Inr m"
  by (simp add: twice_empty_def derive_mesh_empty)

theorem empty_removal_noop_witness:
  "derive_mesh pyramid [] = Inr pyramid \<and> twice_empty pyramid = Inr pyramid"
  using empty_removal_noop [of pyramid] by simp



lemma edit_mesh_obj_cases:
  "(derive_mesh (data obj) S = Inr m1 \<longrightarrow> edit_mesh_obj obj S = (None, obj\<lparr>data := m1\<rparr>))
   \<and> (derive_mesh (data obj) S = Inl e \<longrightarrow> edit_mesh_obj obj S = (Some e, obj))"
  by (simp add: edit_mesh_obj_def)

















text \<open>
  Claim C9. \<open>degToRadian angle\<close> is \<open>angle * (pi / 180)\<close>, and \<open>rotate_obj\<close> on an object
  of the store sets its \<^verbatim>\<open>rotation_euler\<close> to the angles converted component-wise,
  leaving the other attributes of the object and the other objects as they were.
\<close>

theorem rotate_obj_radians:
  assumes "objs name = Some obj" and "attrs obj ''rotation_euler'' \<noteq> None"
  shows "degToRadian angle = angle * (pi / 180)
   \<and> fst (rotate_obj name angles objs) = None
   \<and> (\<exists>obj1. snd (rotate_obj name angles objs) name = Some obj1
        \<and> attrs obj1 ''rotation_euler'' = Some (map (\<lambda>angle. angle * (pi / 180)) angles)
        \<and> (\<forall>a. a \<noteq> ''rotation_euler'' \<longrightarrow> attrs obj1 a = attrs obj a))
   \<and> (\<forall>other. other \<noteq> name \<longrightarrow> snd (rotate_obj name angles objs) other = objs other)"
proof -
  from assms(2) obtain old where old: "attrs obj ''rotation_euler'' = Some old" by auto
  have deg: "map degToRadian angles = map (\<lambda>angle. angle * (pi / 180)) angles"
    by (simp add: degToRadian_def)
  show ?thesis
    using assms(1) old
    by (simp add: rotate_obj_def py_setattr_def Let_def deg degToRadian_def)
qed

theorem rotate_obj_radians_witness:
  "[''Camera'' \<mapsto> cone] ''Camera'' = Some cone \<and> attrs cone ''rotation_euler'' \<noteq> None
   \<and> fst (rotate_obj ''Camera'' [90, 0, 0] [''Camera'' \<mapsto> cone]) = None
   \<and> (\<exists>obj1. snd (rotate_obj ''Camera'' [90, 0, 0] [''Camera'' \<mapsto> cone]) ''Camera'' = Some obj1
        \<and> attrs obj1 ''rotation_euler'' = Some [pi / 2, 0, 0])"
proof -
  have a: "[''Camera'' \<mapsto> cone] ''Camera'' = Some cone" by simp
  have b: "attrs cone ''rotation_euler'' \<noteq> None" by (simp add: cone_def)
  from rotate_obj_radians [where objs = "[''Camera'' \<mapsto> cone]" and name = "''Camera''"
      and obj = cone and angle = 0 and angles = "[90, 0, 0]", OF a b] a b
  show ?thesis by auto
qed

lemma find_Some_named:
  "find (\<lambda>m. mat_name m = name) mats = Some m \<Longrightarrow> m \<in> set mats \<and> mat_name m = name"
  by (induction mats) (auto split: if_splits)

lemma find_None_named:
  "(find (\<lambda>m. mat_name m = name) mats = None) = (name \<notin> set (map mat_name mats))"
  by (induction mats) auto

text \<open>
  Claim C10. When a material of the name exists, the get-or-create idiom returns it and
  leaves the store as it was; when none exists, it adds exactly one material, of that
  name. Either way the store then holds \<open>max 1 n\<close> materials of the name where it held
  \<open>n\<close>, and a store without duplicate names stays without duplicates, whatever the
  renaming policy of the host.
\<close>

theorem get_or_new_no_duplicate:
  "(\<forall>m. materials_get mats name = Some m \<longrightarrow>
       get_or_new_material rename mats name = (m, mats) \<and> m \<in> set mats \<and> mat_name m = name)
   \<and> (materials_get mats name = None \<longrightarrow>
       get_or_new_material rename mats name =
         (\<lparr>mat_name = name, use_nodes = False\<rparr>, mats @ [\<lparr>mat_name = name, use_nodes = False\<rparr>])
       \<and> named mats name = 0)
   \<and> named (snd (get_or_new_material rename mats name)) name = max 1 (named mats name)
   \<and> (distinct (map mat_name mats) \<longrightarrow>
       distinct (map mat_name (snd (get_or_new_material rename mats name))))"
proof (cases "materials_get mats name")
  case None
  then have notin: "name \<notin> set (map mat_name mats)"
    by (simp add: materials_get_def find_None_named)
  then have zero: "filter (\<lambda>m. mat_name m = name) mats = []"
    by (auto simp: filter_empty_conv)
  from None notin zero show ?thesis
    by (simp add: get_or_new_material_def materials_new_def Let_def named_def)
next
  case (Some m)
  then have m: "m \<in> set mats" "mat_name m = name"
    using find_Some_named [of name mats m] by (simp_all add: materials_get_def)
  then have "filter (\<lambda>m. mat_name m = name) mats \<noteq> []"
    by (auto simp: filter_empty_conv)
  then have "1 \<le> named mats name"
    by (cases "filter (\<lambda>m. mat_name m = name) mats") (simp_all add: named_def)
  with Some m show ?thesis
    by (simp add: get_or_new_material_def max_def)
qed

theorem get_or_new_no_duplicate_witness:
  "materials_get [emission] ''Material'' = Some emission
   \<and> get_or_new_material dot_one [emission] ''Material'' = (emission, [emission])
   \<and> materials_get [emission] ''X-ray'' = None
   \<and> get_or_new_material dot_one [emission] ''X-ray'' =
       (\<lparr>mat_name = ''X-ray'', use_nodes = False\<rparr>,
        [emission, \<lparr>mat_name = ''X-ray'', use_nodes = False\<rparr>])
   \<and> distinct (map mat_name [emission])
   \<and> distinct (map mat_name (snd (get_or_new_material dot_one [emission] ''X-ray'')))"
proof -
  have a: "materials_get [emission] ''Material'' = Some emission"
    by (simp add: materials_get_def emission_def)
  have b: "materials_get [emission] ''X-ray'' = None"
    by (simp add: materials_get_def emission_def)
  have c: "distinct (map mat_name [emission])" by simp
  from get_or_new_no_duplicate [of "[emission]" "''Material''" dot_one]
    get_or_new_no_duplicate [of "[emission]" "''X-ray''" dot_one] a b c
  show ?thesis by simp
qed

end
